theory Spec2Isabelle
  imports Complex_Main
begin

section \<open>Errors\<close>

text \<open>
  The source of \<^verbatim>\<open>app/retrieval/search.py\<close> defines no exception class and contains no
  \<^verbatim>\<open>raise\<close>, \<^verbatim>\<open>try\<close> or \<^verbatim>\<open>assert\<close>. Every failure of \<^verbatim>\<open>ScentSearch\<close> is a Python
  exception raised by one of its statements or by a library it calls, and it leaves the
  method at that statement. The last three constructors are those exceptions. The first
  four are the error kinds named by the specification; no path of the source produces
  them, and they are here so that statements about them can be written down.
\<close>

datatype error =
    EmptyCorpusError
  | DimensionMismatchError
  | InvalidArgumentError
  | EncoderError
  | AttributeError
  | IndexError
  | AssertionError

section \<open>The encoder\<close>

text \<open>
  \<^verbatim>\<open>self.model\<close> is a \<^verbatim>\<open>SentenceTransformer\<close>, an external collaborator. It is a
  parameter of the model: a function from a text to its embedding. Being a function, it
  maps equal texts to equal vectors. Components are idealised as real numbers, so the
  rounding of 32-bit floating point is not part of the model.
  \<^verbatim>\<open>model.encode(list_of_texts)\<close> returns one row per text, in input order.
\<close>

type_synonym vector = "real list"
type_synonym encoder = "string \<Rightarrow> vector"

definition encode :: "encoder \<Rightarrow> string list \<Rightarrow> vector list" where
  "encode model sentences = map model sentences"

text \<open>The encoder contract: every embedding has the same number of components.\<close>

definition fixed_dim :: "encoder \<Rightarrow> nat \<Rightarrow> bool" where
  "fixed_dim model n \<longleftrightarrow> (\<forall>t. length (model t) = n)"

text \<open>
  \<^verbatim>\<open>a.shape[1]\<close> of the array built from a list of rows. The array made from no rows
  at all is one-dimensional, with shape \<^verbatim>\<open>(0,)\<close>, so reading the second entry of the
  shape tuple raises \<^verbatim>\<open>IndexError\<close>.
\<close>

definition shape1 :: "vector list \<Rightarrow> error + nat" where
  "shape1 a = (case a of [] \<Rightarrow> Inl IndexError | row # _ \<Rightarrow> Inr (length row))"

section \<open>The flat L2 index\<close>

text \<open>
  \<^verbatim>\<open>faiss.IndexFlatL2\<close> is an external library, taken here by its documented contract:
  \<^item> the index keeps the added vectors in insertion order, numbered from 0;
  \<^item> \<^verbatim>\<open>add(x)\<close> and \<^verbatim>\<open>search(x, k)\<close> assert that the rows of \<^verbatim>\<open>x\<close> have the dimension
    of the index, and \<^verbatim>\<open>search\<close> asserts \<^verbatim>\<open>k > 0\<close>;
  \<^item> \<^verbatim>\<open>search(x, k)\<close> returns, for each row of \<^verbatim>\<open>x\<close>, exactly \<^verbatim>\<open>k\<close> distances and
    \<^verbatim>\<open>k\<close> labels: the nearest stored vectors by squared Euclidean distance, nearest
    first, equal distances in ascending label order; when the index holds fewer than
    \<^verbatim>\<open>k\<close> vectors the remaining labels are \<^verbatim>\<open>-1\<close> and the remaining distances are the
    largest finite 32-bit float.
\<close>

record IndexFlat =
  ix_d :: nat
  ix_xb :: "vector list"

definition ntotal :: "IndexFlat \<Rightarrow> nat" where
  "ntotal ix = length (ix_xb ix)"

definition IndexFlatL2 :: "nat \<Rightarrow> IndexFlat" where
  "IndexFlatL2 dimension = \<lparr>ix_d = dimension, ix_xb = []\<rparr>"

definition index_add :: "IndexFlat \<Rightarrow> vector list \<Rightarrow> error + IndexFlat" where
  "index_add ix x =
     (if list_all (\<lambda>row. length row = ix_d ix) x
      then Inr (ix\<lparr>ix_xb := ix_xb ix @ x\<rparr>)
      else Inl AssertionError)"

definition FLT_MAX :: real where
  "FLT_MAX = 340282346638528859811704183484516925440"

definition fvec_L2sqr :: "vector \<Rightarrow> vector \<Rightarrow> real" where
  "fvec_L2sqr x y = sum_list (map (\<lambda>(a, b). (a - b)\<^sup>2) (zip x y))"

text \<open>
  The candidates of one query row: every stored vector's distance paired with its
  label, sorted by distance. \<open>sort_key\<close> is a stable insertion sort, so equal
  distances stay in ascending label order.
\<close>

definition ranked :: "IndexFlat \<Rightarrow> vector \<Rightarrow> (real \<times> nat) list" where
  "ranked ix q = sort_key fst (zip (map (fvec_L2sqr q) (ix_xb ix)) [0..<ntotal ix])"

definition knn_L2sqr :: "IndexFlat \<Rightarrow> nat \<Rightarrow> vector \<Rightarrow> real list \<times> int list" where
  "knn_L2sqr ix k q =
     (let top = take k (ranked ix q);
          missing = k - length top
      in (map fst top @ replicate missing FLT_MAX,
          map (\<lambda>c. int (snd c)) top @ replicate missing (- 1)))"

definition index_search ::
  "IndexFlat \<Rightarrow> vector list \<Rightarrow> int \<Rightarrow> error + (real list list \<times> int list list)" where
  "index_search ix x k =
     (if \<not> list_all (\<lambda>row. length row = ix_d ix) x then Inl AssertionError
      else if \<not> k > 0 then Inl AssertionError
      else Inr (map (\<lambda>q. fst (knn_L2sqr ix (nat k) q)) x,
                map (\<lambda>q. snd (knn_L2sqr ix (nat k) q)) x))"

section \<open>Python list indexing\<close>

text \<open>
  \<^verbatim>\<open>xs[i]\<close> on a Python list: a negative index counts from the end, and an index
  outside \<^verbatim>\<open>-len(xs) .. len(xs)-1\<close> raises \<^verbatim>\<open>IndexError\<close>.
\<close>

definition py_getitem :: "'a list \<Rightarrow> int \<Rightarrow> error + 'a" where
  "py_getitem xs i =
     (if 0 \<le> i \<and> i < int (length xs) then Inr (xs ! nat i)
      else if i < 0 \<and> - int (length xs) \<le> i then Inr (xs ! nat (int (length xs) + i))
      else Inl IndexError)"

section \<open>ScentSearch\<close>

text \<open>
  The fields of a \<^verbatim>\<open>ScentSearch\<close> object that its methods assign. \<^verbatim>\<open>None\<close> is the
  value \<open>None\<close>. The field \<^verbatim>\<open>model\<close> is never reassigned and is passed as a parameter.
\<close>

record ScentSearch =
  scent_descriptions :: "string list"
  scent_vectors :: "vector list option"
  index :: "IndexFlat option"

definition ScentSearch_init :: ScentSearch where
  "ScentSearch_init = \<lparr>scent_descriptions = [], scent_vectors = None, index = None\<rparr>"

text \<open>
  \<^verbatim>\<open>add_scents\<close> assigns the fields one statement at a time. The result is the outcome
  of the call together with the object as the call leaves it, also when it raises.
  The two \<^verbatim>\<open>print\<close> calls at its end only write to standard output and are left out.
\<close>

definition add_scents ::
  "encoder \<Rightarrow> ScentSearch \<Rightarrow> string list \<Rightarrow> (error + unit) \<times> ScentSearch" where
  "add_scents model self descriptions =
     (let self1 = self\<lparr>scent_descriptions := descriptions\<rparr>;
          vectors = encode model descriptions;
          self2 = self1\<lparr>scent_vectors := Some vectors\<rparr>
      in case shape1 vectors of
           Inl e \<Rightarrow> (Inl e, self2)
         | Inr dimension \<Rightarrow>
             (let self3 = self2\<lparr>index := Some (IndexFlatL2 dimension)\<rparr>
              in case index_add (IndexFlatL2 dimension) vectors of
                   Inl e \<Rightarrow> (Inl e, self3)
                 | Inr ix \<Rightarrow> (Inr (), self3\<lparr>index := Some ix\<rparr>)))"

text \<open>
  The loop of \<^verbatim>\<open>search\<close> over \<^verbatim>\<open>range(len(indices[0]))\<close>: it reads the label and the
  distance at each position, looks the label up in the description list and appends
  the pair to \<^verbatim>\<open>results\<close>.
\<close>

fun format_results ::
  "string list \<Rightarrow> int list \<Rightarrow> real list \<Rightarrow> (string \<times> real) list
     \<Rightarrow> error + (string \<times> real) list" where
  "format_results descs [] ds results = Inr results"
| "format_results descs (idx # rest) [] results = Inl IndexError"
| "format_results descs (idx # rest) (distance # ds) results =
     (case py_getitem descs idx of
        Inl e \<Rightarrow> Inl e
      | Inr desc \<Rightarrow> format_results descs rest ds (results @ [(desc, distance)]))"

text \<open>
  \<^verbatim>\<open>search\<close> encodes the query first, then calls \<^verbatim>\<open>self.index.search\<close>; on an object
  whose \<^verbatim>\<open>index\<close> is still \<^verbatim>\<open>None\<close> that attribute lookup raises \<^verbatim>\<open>AttributeError\<close>.
  The second component is the object after the call.
\<close>

definition search ::
  "encoder \<Rightarrow> ScentSearch \<Rightarrow> string \<Rightarrow> int
     \<Rightarrow> (error + (string \<times> real) list) \<times> ScentSearch" where
  "search model self query k =
     (let query_vector = encode model [query]
      in case index self of
           None \<Rightarrow> (Inl AttributeError, self)
         | Some ix \<Rightarrow>
             (case index_search ix query_vector k of
                Inl e \<Rightarrow> (Inl e, self)
              | Inr (distances, indices) \<Rightarrow>
                  (format_results (scent_descriptions self) (indices ! 0) (distances ! 0) [],
                   self)))"

section \<open>A concrete encoder and corpus\<close>

text \<open>
  A small encoder for concrete runs: the length of the text and the number of
  occurrences of the letter a.
\<close>

definition toy_encoder :: encoder where
  "toy_encoder t = [real (length t), real (length (filter (\<lambda>c. c = CHR ''a'') t))]"

definition demo_store :: ScentSearch where
  "demo_store = snd (add_scents toy_encoder ScentSearch_init [''a'', ''bb''])"

section \<open>Properties\<close>

subsection \<open>List indexing and the result loop\<close>

lemma py_getitem_mem: "py_getitem xs i = Inr x \<Longrightarrow> x \<in> set xs"
  by (auto simp: py_getitem_def split: if_splits)

lemma py_getitem_nonneg:
  "0 \<le> i \<Longrightarrow> i < int (length xs) \<Longrightarrow> py_getitem xs i = Inr (xs ! nat i)"
  by (simp add: py_getitem_def)

lemma py_getitem_minus_one: "xs \<noteq> [] \<Longrightarrow> py_getitem xs (- 1) = Inr (last xs)"
  by (cases xs rule: rev_cases) (auto simp: py_getitem_def nat_add_distrib)

lemma format_results_mem:
  "format_results descs labels ds acc = Inr rs \<Longrightarrow>
     length rs = length acc + length labels \<and> (\<forall>r\<in>set rs. r \<in> set acc \<or> fst r \<in> set descs)"
proof (induction descs labels ds acc rule: format_results.induct)
  case (1 descs ds results)
  then show ?case by simp
next
  case (2 descs idx rest results)
  then show ?case by simp
next
  case (3 descs idx rest distance ds results)
  from "3.prems" obtain desc where g: "py_getitem descs idx = Inr desc"
    and r: "format_results descs rest ds (results @ [(desc, distance)]) = Inr rs"
    by (auto split: sum.splits)
  have m: "desc \<in> set descs" using g by (rule py_getitem_mem)
  from "3.IH" [OF g r] m show ?case by fastforce
qed

lemma format_results_append:
  "length labels = length ds \<Longrightarrow>
   format_results descs labels ds acc = Inr rs \<Longrightarrow>
   format_results descs (labels @ labels') (ds @ ds') acc = format_results descs labels' ds' rs"
proof (induction descs labels ds acc rule: format_results.induct)
  case (3 descs idx rest distance ds results)
  then show ?case by (auto split: sum.splits)
qed auto

lemma format_results_valid:
  "length labels = length ds \<Longrightarrow> \<forall>i\<in>set labels. 0 \<le> i \<and> i < int (length descs) \<Longrightarrow>
   format_results descs labels ds acc = Inr (acc @ map (\<lambda>(i, d). (descs ! nat i, d)) (zip labels ds))"
proof (induction descs labels ds acc rule: format_results.induct)
  case (3 descs idx rest distance ds results)
  then show ?case by (simp add: py_getitem_nonneg)
qed auto

lemma format_results_padding:
  "descs \<noteq> [] \<Longrightarrow>
   format_results descs (replicate m (- 1)) (replicate m x) acc = Inr (acc @ replicate m (last descs, x))"
proof (induction m arbitrary: acc)
  case (Suc m)
  then show ?case by (simp add: py_getitem_minus_one replicate_app_Cons_same)
qed simp

subsection \<open>The object after a search\<close>

lemma search_snd: "snd (search model self query k) = self"
  by (simp add: search_def Let_def split: option.split sum.split prod.split)

subsection \<open>Building the index and searching it\<close>

lemma add_scents_empty:
  "add_scents model self [] =
     (Inl IndexError, self\<lparr>scent_descriptions := [], scent_vectors := Some []\<rparr>)"
  by (simp add: add_scents_def encode_def shape1_def)

lemma add_scents_descriptions:
  "scent_descriptions (snd (add_scents model self D)) = D"
  by (simp add: add_scents_def Let_def split: sum.split)

lemma add_scents_fixed_dim:
  assumes "fixed_dim model n" and "D \<noteq> []"
  shows "add_scents model self D =
     (Inr (), \<lparr>scent_descriptions = D, scent_vectors = Some (map model D),
               index = Some \<lparr>ix_d = n, ix_xb = map model D\<rparr>\<rparr>)"
proof -
  obtain t ts where D: "D = t # ts" using assms(2) by (cases D) auto
  have len: "\<And>u. length (model u) = n" using assms(1) by (simp add: fixed_dim_def)
  show ?thesis
    by (simp add: D add_scents_def encode_def shape1_def IndexFlatL2_def index_add_def
        len list_all_iff Let_def)
qed

lemma add_scents_success:
  assumes "fst (add_scents model self D) = Inr ()"
  shows "D \<noteq> [] \<and> snd (add_scents model self D) =
     \<lparr>scent_descriptions = D, scent_vectors = Some (map model D),
      index = Some \<lparr>ix_d = length (model (hd D)), ix_xb = map model D\<rparr>\<rparr>"
proof (cases D)
  case Nil
  with assms show ?thesis by (simp add: add_scents_empty)
next
  case (Cons t ts)
  with assms show ?thesis
    by (simp add: add_scents_def encode_def shape1_def IndexFlatL2_def index_add_def
        Let_def split: if_splits)
qed

lemma add_scents_success_dim:
  assumes "fst (add_scents model self D) = Inr ()" and "t \<in> set D"
  shows "length (model t) = length (model (hd D))"
proof (cases D)
  case Nil
  with assms show ?thesis by simp
next
  case (Cons u us)
  with assms show ?thesis
    by (auto simp: add_scents_def encode_def shape1_def IndexFlatL2_def index_add_def
        Let_def list_all_iff split: if_splits)
qed

lemma search_bad_k:
  "index self = Some ix \<Longrightarrow> k < 1 \<Longrightarrow> search model self query k = (Inl AssertionError, self)"
  by (simp add: search_def index_search_def Let_def)

lemma search_index_Some:
  assumes "index self = Some ix" and "length (model query) = ix_d ix" and "0 < k"
  shows "search model self query k =
     (format_results (scent_descriptions self)
        (snd (knn_L2sqr ix (nat k) (model query))) (fst (knn_L2sqr ix (nat k) (model query))) [],
      self)"
  using assms by (simp add: search_def index_search_def encode_def Let_def)

lemma length_ranked: "length (ranked ix q) = ntotal ix"
  by (simp add: ranked_def ntotal_def)

lemma ranked_label: "c \<in> set (ranked ix q) \<Longrightarrow> snd c < ntotal ix"
  by (cases c) (auto simp: ranked_def ntotal_def dest: set_zip_rightD)

lemma ranked_distance:
  "c \<in> set (ranked ix q) \<Longrightarrow> fst c = fvec_L2sqr q (ix_xb ix ! snd c)"
  by (auto simp: ranked_def ntotal_def set_zip)

lemma knn_L2sqr_eq:
  "knn_L2sqr ix k q =
     (map fst (take k (ranked ix q)) @ replicate (k - ntotal ix) FLT_MAX,
      map (\<lambda>c. int (snd c)) (take k (ranked ix q)) @ replicate (k - ntotal ix) (- 1))"
  by (simp add: knn_L2sqr_def Let_def length_ranked min_def)

lemma search_built:
  assumes ix: "index self = Some ix" and dim: "length (model query) = ix_d ix" and k: "0 < k"
    and len: "length (scent_descriptions self) = ntotal ix"
    and ne: "scent_descriptions self \<noteq> []"
  shows "fst (search model self query k) =
     Inr (map (\<lambda>c. (scent_descriptions self ! snd c, fst c)) (take (nat k) (ranked ix (model query)))
          @ replicate (nat k - ntotal ix) (last (scent_descriptions self), FLT_MAX))"
proof -
  let ?descs = "scent_descriptions self"
  let ?top = "take (nat k) (ranked ix (model query))"
  let ?labels = "map (\<lambda>c. int (snd c)) ?top"
  let ?ds = "map fst ?top"
  have valid: "\<forall>i\<in>set ?labels. 0 \<le> i \<and> i < int (length ?descs)"
    using ranked_label [of _ ix "model query"] len by (auto dest!: in_set_takeD)
  have "format_results ?descs ?labels ?ds [] =
          Inr ([] @ map (\<lambda>(i, d). (?descs ! nat i, d)) (zip ?labels ?ds))"
    using valid by (intro format_results_valid) simp_all
  also have "map (\<lambda>(i, d). (?descs ! nat i, d)) (zip ?labels ?ds) =
          map (\<lambda>c. (?descs ! snd c, fst c)) ?top"
    by (simp add: zip_map_map zip_same_conv_map)
  finally have first: "format_results ?descs ?labels ?ds [] =
          Inr (map (\<lambda>c. (?descs ! snd c, fst c)) ?top)"
    by simp
  have "format_results ?descs (?labels @ replicate (nat k - ntotal ix) (- 1))
          (?ds @ replicate (nat k - ntotal ix) FLT_MAX) [] =
        format_results ?descs (replicate (nat k - ntotal ix) (- 1))
          (replicate (nat k - ntotal ix) FLT_MAX) (map (\<lambda>c. (?descs ! snd c, fst c)) ?top)"
    using first by (intro format_results_append) simp_all
  also have "\<dots> = Inr (map (\<lambda>c. (?descs ! snd c, fst c)) ?top
          @ replicate (nat k - ntotal ix) (last ?descs, FLT_MAX))"
    using ne by (rule format_results_padding)
  finally show ?thesis
    by (simp add: search_index_Some [of self ix model query k, OF ix dim k] knn_L2sqr_eq)
qed

subsection \<open>The concrete corpus\<close>

lemma fixed_dim_toy_encoder: "fixed_dim toy_encoder 2"
  by (simp add: fixed_dim_def toy_encoder_def)

lemma length_toy_encoder: "length (toy_encoder t) = 2"
  by (simp add: toy_encoder_def)

lemma demo_store_eq:
  "demo_store = \<lparr>scent_descriptions = [''a'', ''bb''],
     scent_vectors = Some [[1, 1], [2, 0]],
     index = Some \<lparr>ix_d = 2, ix_xb = [[1, 1], [2, 0]]\<rparr>\<rparr>"
  by (simp add: demo_store_def add_scents_fixed_dim [OF fixed_dim_toy_encoder] toy_encoder_def)

lemma ranked_demo_a:
  "ranked \<lparr>ix_d = 2, ix_xb = [[1, 1], [2, 0]]\<rparr> (toy_encoder ''a'') = [(0, 0), (2, 1)]"
  by (simp add: ranked_def ntotal_def fvec_L2sqr_def toy_encoder_def upt_rec)

lemma ranked_demo_bb:
  "ranked \<lparr>ix_d = 2, ix_xb = [[1, 1], [2, 0]]\<rparr> (toy_encoder ''bb'') = [(0, 1), (2, 0)]"
  by (simp add: ranked_def ntotal_def fvec_L2sqr_def toy_encoder_def upt_rec)

lemma search_demo_a_1: "fst (search toy_encoder demo_store ''a'' 1) = Inr [(''a'', 0)]"
  by (subst search_built [where ix = "\<lparr>ix_d = 2, ix_xb = [[1, 1], [2, 0]]\<rparr>"])
     (simp_all add: demo_store_eq ranked_demo_a ntotal_def length_toy_encoder)

subsection \<open>Distances and the ranking\<close>

lemma fvec_L2sqr_nonneg: "0 \<le> fvec_L2sqr x y"
  by (auto simp: fvec_L2sqr_def intro!: sum_list_nonneg)

lemma fvec_L2sqr_self: "fvec_L2sqr x x = 0"
  by (induction x) (simp_all add: fvec_L2sqr_def)

lemma FLT_MAX_nonneg: "0 \<le> FLT_MAX"
  by (simp add: FLT_MAX_def)

lemma sorted_ranked: "sorted (map fst (ranked ix q))"
  by (simp add: ranked_def)

lemma ranked_nonneg: "c \<in> set (ranked ix q) \<Longrightarrow> 0 \<le> fst c"
  by (simp add: ranked_distance fvec_L2sqr_nonneg)

lemma ranked_member:
  "j < ntotal ix \<Longrightarrow> (fvec_L2sqr q (ix_xb ix ! j), j) \<in> set (ranked ix q)"
  by (auto simp: ranked_def ntotal_def set_zip intro!: exI [of _ j])

lemma ranked_hd_least:
  assumes "c \<in> set (ranked ix q)"
  shows "fst (hd (ranked ix q)) \<le> fst c"
proof (cases "ranked ix q")
  case Nil
  with assms show ?thesis by simp
next
  case (Cons a rest)
  with sorted_ranked [of ix q] assms show ?thesis by auto
qed

subsection \<open>Results come from the current descriptions\<close>

lemma search_descriptions:
  assumes "fst (search model self query k) = Inr rs"
  shows "\<forall>r\<in>set rs. fst r \<in> set (scent_descriptions self)"
proof -
  from assms obtain labels ds where
    "format_results (scent_descriptions self) labels ds [] = Inr rs"
    by (auto simp: search_def Let_def split: option.splits sum.splits prod.splits)
  from format_results_mem [OF this] show ?thesis by simp
qed

lemma add_scents_success_indep:
  assumes "fst (add_scents model self D) = Inr ()"
  shows "add_scents model self' D = add_scents model self D"
proof -
  from add_scents_success [OF assms] obtain t ts where D: "D = t # ts" by (cases D) auto
  show ?thesis
    using assms unfolding D
    by (simp add: add_scents_def encode_def shape1_def IndexFlatL2_def index_add_def
        Let_def split: if_splits)
qed

subsection \<open>More concrete runs\<close>

lemma search_demo_replaced:
  "fst (search toy_encoder (snd (add_scents toy_encoder demo_store [''ccc''])) ''a'' 2) =
     Inr [(''ccc'', 5), (''ccc'', FLT_MAX)]"
proof -
  have s: "snd (add_scents toy_encoder demo_store [''ccc'']) =
      \<lparr>scent_descriptions = [''ccc''], scent_vectors = Some [[3, 0]],
       index = Some \<lparr>ix_d = 2, ix_xb = [[3, 0]]\<rparr>\<rparr>"
    by (simp add: add_scents_fixed_dim [OF fixed_dim_toy_encoder] toy_encoder_def)
  have r: "ranked \<lparr>ix_d = 2, ix_xb = [[3, 0]]\<rparr> (toy_encoder ''a'') = [(5, 0)]"
    by (simp add: ranked_def ntotal_def fvec_L2sqr_def toy_encoder_def)
  show ?thesis unfolding s
    by (subst search_built [where ix = "\<lparr>ix_d = 2, ix_xb = [[3, 0]]\<rparr>"])
       (simp_all add: r ntotal_def length_toy_encoder)
qed

lemma search_demo_a_2:
  "fst (search toy_encoder demo_store ''a'' 2) = Inr [(''a'', 0), (''bb'', 2)]"
  by (subst search_built [where ix = "\<lparr>ix_d = 2, ix_xb = [[1, 1], [2, 0]]\<rparr>"])
     (simp_all add: demo_store_eq ranked_demo_a ntotal_def length_toy_encoder)

lemma index_search_demo_a_2:
  "index_search \<lparr>ix_d = 2, ix_xb = [[1, 1], [2, 0]]\<rparr> (encode toy_encoder [''a'']) 2 =
     Inr ([[0, 2]], [[0, 1]])"
  by (simp add: index_search_def encode_def length_toy_encoder knn_L2sqr_eq ranked_demo_a
      ntotal_def)

subsection \<open>The order of the ranking\<close>

lemma sorted_wrt_filter_nth:
  "sorted_wrt R (filter P xs) \<Longrightarrow> i < j \<Longrightarrow> j < length xs \<Longrightarrow> P (xs ! i) \<Longrightarrow> P (xs ! j)
     \<Longrightarrow> R (xs ! i) (xs ! j)"
proof (induction xs arbitrary: i j)
  case Nil
  then show ?case by simp
next
  case (Cons x xs)
  from Cons.prems obtain j' where j: "j = Suc j'" by (cases j) auto
  show ?case
  proof (cases i)
    case 0
    with Cons.prems j have "P x" and "xs ! j' \<in> set (filter P xs)" by auto
    with Cons.prems 0 j show ?thesis by auto
  next
    case (Suc i')
    have "sorted_wrt R (filter P xs)" using Cons.prems(1) by (auto split: if_splits)
    with Cons.IH [of i' j'] Cons.prems Suc j show ?thesis by simp
  qed
qed

lemma ranked_ties:
  assumes "i < j" and "j < length (ranked ix q)"
    and "fst (ranked ix q ! i) = fst (ranked ix q ! j)"
  shows "snd (ranked ix q ! i) < snd (ranked ix q ! j)"
proof -
  let ?cands = "zip (map (fvec_L2sqr q) (ix_xb ix)) [0..<ntotal ix]"
  let ?d = "fst (ranked ix q ! j)"
  have "sorted_wrt (<) (map snd ?cands)" by (simp add: ntotal_def)
  then have "sorted_wrt (\<lambda>a b. snd a < snd b) ?cands" by (simp add: sorted_wrt_map)
  then have "sorted_wrt (\<lambda>a b. snd a < snd b) (filter (\<lambda>c. fst c = ?d) ?cands)"
    by (rule sorted_wrt_filter)
  then have "sorted_wrt (\<lambda>a b. snd a < snd b) (filter (\<lambda>c. fst c = ?d) (ranked ix q))"
    by (simp add: ranked_def sort_key_stable)
  from sorted_wrt_filter_nth [OF this assms(1,2)] assms(3) show ?thesis by simp
qed

lemma distinct_ranked_labels: "distinct (map snd (ranked ix q))"
proof -
  let ?cands = "zip (map (fvec_L2sqr q) (ix_xb ix)) [0..<ntotal ix]"
  have "distinct (map snd ?cands)" by (simp add: ntotal_def)
  then have "distinct ?cands \<and> inj_on snd (set ?cands)" by (simp add: distinct_map)
  then have "distinct (ranked ix q) \<and> inj_on snd (set (ranked ix q))"
    by (simp add: ranked_def)
  then show ?thesis by (simp add: distinct_map)
qed

lemma ranked_take_nearest:
  assumes "c \<in> set (take m (ranked ix q))" and "c' \<in> set (ranked ix q)"
    and "c' \<notin> set (take m (ranked ix q))"
  shows "fst c \<le> fst c'"
proof -
  have "c' \<in> set (take m (ranked ix q) @ drop m (ranked ix q))" using assms(2) by simp
  with assms(3) have "c' \<in> set (drop m (ranked ix q))" by (simp del: append_take_drop_id)
  moreover have "sorted (map fst (take m (ranked ix q)) @ map fst (drop m (ranked ix q)))"
    using sorted_ranked [of ix q] by (simp flip: map_append)
  ultimately show ?thesis using assms(1) by (auto simp: sorted_append)
qed

text \<open>
  Within the corpus size the order is as expected: for \<open>1 \<le> k \<le> length D\<close> the
  results are \<open>k\<close> different stored items, each with its own distance to the query,
  in ascending distance, equal distances in ascending insertion order, and no item
  left out is nearer than an item returned.
\<close>

lemma search_order_within_corpus:
  assumes dim: "fixed_dim model n" and k: "0 < k" "k \<le> int (length D)"
  shows "\<exists>ids. length ids = nat k \<and> distinct ids \<and> (\<forall>i\<in>set ids. i < length D) \<and>
     fst (search model (snd (add_scents model self D)) query k) =
       Inr (map (\<lambda>i. (D ! i, fvec_L2sqr (model query) (model (D ! i)))) ids) \<and>
     sorted (map (\<lambda>i. fvec_L2sqr (model query) (model (D ! i))) ids) \<and>
     (\<forall>a b. a < b \<and> b < nat k \<and>
        fvec_L2sqr (model query) (model (D ! (ids ! a))) =
        fvec_L2sqr (model query) (model (D ! (ids ! b))) \<longrightarrow> ids ! a < ids ! b) \<and>
     (\<forall>j<length D. j \<notin> set ids \<longrightarrow>
        (\<forall>i\<in>set ids. fvec_L2sqr (model query) (model (D ! i))
                      \<le> fvec_L2sqr (model query) (model (D ! j))))"
proof -
  let ?ix = "\<lparr>ix_d = n, ix_xb = map model D\<rparr>"
  let ?s = "\<lparr>scent_descriptions = D, scent_vectors = Some (map model D), index = Some ?ix\<rparr>"
  let ?r = "ranked ?ix (model query)"
  let ?top = "take (nat k) ?r"
  let ?ids = "map snd ?top"
  let ?dist = "\<lambda>i. fvec_L2sqr (model query) (model (D ! i))"
  from k have ne: "D \<noteq> []" by auto
  from k have kn: "nat k \<le> length D" by linarith
  have s: "snd (add_scents model self D) = ?s"
    by (simp add: add_scents_fixed_dim [OF dim ne])
  have len: "length (model query) = n" using dim by (simp add: fixed_dim_def)
  have lr: "length ?r = length D" by (simp add: length_ranked ntotal_def)
  have lab: "snd c < length D" if "c \<in> set ?r" for c
    using ranked_label [OF that] by (simp add: ntotal_def)
  have dist: "fst c = ?dist (snd c)" if "c \<in> set ?r" for c
    using ranked_distance [OF that] lab [OF that] by simp
  have top_in: "c \<in> set ?r" if "c \<in> set ?top" for c
    using that by (rule in_set_takeD)
  have "fst (search model ?s query k) = Inr (map (\<lambda>c. (D ! snd c, fst c)) ?top)"
    using search_built [of ?s ?ix model query k] k(1) kn ne len by (simp add: ntotal_def)
  also have "map (\<lambda>c. (D ! snd c, fst c)) ?top = map (\<lambda>i. (D ! i, ?dist i)) ?ids"
    using dist top_in by simp
  finally have res: "fst (search model ?s query k) = Inr (map (\<lambda>i. (D ! i, ?dist i)) ?ids)" .
  have l: "length ?ids = nat k" using kn lr by simp
  have d: "distinct ?ids"
    using distinct_ranked_labels [of ?ix "model query"]
    by (simp flip: take_map)
  have v: "\<forall>i\<in>set ?ids. i < length D" using lab top_in by auto
  have dists: "map ?dist ?ids = map fst ?top" using dist top_in by simp
  have so: "sorted (map ?dist ?ids)"
    unfolding dists using sorted_ranked [of ?ix "model query"]
    by (simp flip: take_map)
  have ties: "?ids ! a < ?ids ! b"
    if h: "a < b \<and> b < nat k \<and> ?dist (?ids ! a) = ?dist (?ids ! b)" for a b
  proof -
    from h kn lr have ab: "a < b" "b < length ?r" "a < length ?r" "a < nat k" "b < nat k"
      by simp_all
    have ia: "?ids ! a = snd (?r ! a)" and ib: "?ids ! b = snd (?r ! b)"
      using ab lr kn by simp_all
    have "fst (?r ! a) = ?dist (snd (?r ! a))" using ab by (intro dist) simp
    moreover have "fst (?r ! b) = ?dist (snd (?r ! b))" using ab by (intro dist) simp
    ultimately have "fst (?r ! a) = fst (?r ! b)" using h ia ib by simp
    from ranked_ties [OF ab(1,2) this] show ?thesis using ia ib by simp
  qed
  have nearest: "\<forall>i\<in>set ?ids. ?dist i \<le> ?dist j" if j: "j < length D" "j \<notin> set ?ids" for j
  proof
    fix i assume "i \<in> set ?ids"
    then obtain c where c: "c \<in> set ?top" "snd c = i" by auto
    let ?c' = "(fvec_L2sqr (model query) (ix_xb ?ix ! j), j)"
    have in_r: "?c' \<in> set ?r" using j(1) by (intro ranked_member) (simp add: ntotal_def)
    have "?c' \<notin> set ?top" using j(2) by force
    from ranked_take_nearest [OF c(1) in_r this] have "fst c \<le> ?dist j" using j(1) by simp
    then show "?dist i \<le> ?dist j" using dist [OF top_in [OF c(1)]] c(2) by simp
  qed
  from l d v res so ties nearest show ?thesis
    unfolding s by (intro exI [of _ ?ids]) blast
qed

section \<open>The properties of the specification, C1 to C10\<close>

text \<open>
  C1, at an input where the code departs from it. The corpus has two descriptions and
  \<open>k = 3\<close>: the index answers with three labels, the third being \<open>-1\<close>, which the
  result loop uses as a Python index from the end. The call returns three results, the
  last one the last description again with the padding distance, not
  \<open>min 3 2 = 2\<close> results.
\<close>

theorem search_k_above_corpus_size:
  "fst (search toy_encoder demo_store ''a'' 3) = Inr [(''a'', 0), (''bb'', 2), (''bb'', FLT_MAX)] \<and>
   length (scent_descriptions demo_store) = 2"
proof -
  have "fst (search toy_encoder demo_store ''a'' 3) =
      Inr [(''a'', 0), (''bb'', 2), (''bb'', FLT_MAX)]"
    by (subst search_built [where ix = "\<lparr>ix_d = 2, ix_xb = [[1, 1], [2, 0]]\<rparr>"])
       (simp_all add: demo_store_eq ranked_demo_a ntotal_def length_toy_encoder)
  then show ?thesis by (simp add: demo_store_eq)
qed

text \<open>
  C2, as the code has it. A \<^verbatim>\<open>search\<close> on an object whose index was never built raises
  \<^verbatim>\<open>AttributeError\<close> (the lookup of \<^verbatim>\<open>search\<close> on \<^verbatim>\<open>None\<close>, after the query has been
  encoded) and leaves the object unchanged. This covers the freshly constructed object
  and the object after a build with no descriptions.
\<close>

theorem search_unbuilt:
  "index self = None \<Longrightarrow> search model self query k = (Inl AttributeError, self)"
  by (simp add: search_def)

theorem search_unbuilt_witness:
  "index ScentSearch_init = None \<and>
   index (snd (add_scents toy_encoder ScentSearch_init [])) = None \<and>
   search toy_encoder ScentSearch_init ''garlic'' 1 = (Inl AttributeError, ScentSearch_init)"
  using search_unbuilt [of ScentSearch_init toy_encoder "''garlic''" 1]
  by (simp add: ScentSearch_init_def add_scents_empty)

text \<open>
  C2 as stated fails: on the freshly constructed object the error of \<^verbatim>\<open>search\<close> is not
  \<^verbatim>\<open>EmptyCorpusError\<close>.
\<close>

theorem search_unbuilt_counterexample:
  "fst (search toy_encoder ScentSearch_init ''garlic'' 1) \<noteq> Inl EmptyCorpusError"
  by (simp add: search_def ScentSearch_init_def)

text \<open>
  C3, at an input where the code departs from it. On the built two-item object, where
  a search for the first description answers with that description, \<^verbatim>\<open>add_scents\<close>
  with no descriptions raises \<^verbatim>\<open>IndexError\<close> (reading \<^verbatim>\<open>shape[1]\<close> of the empty
  encoder output). The call has by then assigned the empty list to
  \<^verbatim>\<open>scent_descriptions\<close> and the empty array to \<^verbatim>\<open>scent_vectors\<close>, while \<^verbatim>\<open>index\<close>
  still holds the two old vectors: the object is not the one before the call, and the
  same search on it now raises \<^verbatim>\<open>IndexError\<close>, the label of the index being looked
  up in the emptied description list.
\<close>

theorem add_scents_empty_overwrites:
  "fst (search toy_encoder demo_store ''a'' 1) = Inr [(''a'', 0)] \<and>
   add_scents toy_encoder demo_store [] =
     (Inl IndexError, demo_store\<lparr>scent_descriptions := [], scent_vectors := Some []\<rparr>) \<and>
   snd (add_scents toy_encoder demo_store []) \<noteq> demo_store \<and>
   scent_descriptions demo_store = [''a'', ''bb''] \<and>
   scent_descriptions (snd (add_scents toy_encoder demo_store [])) = [] \<and>
   index (snd (add_scents toy_encoder demo_store [])) = index demo_store \<and>
   fst (search toy_encoder (snd (add_scents toy_encoder demo_store [])) ''a'' 1) = Inl IndexError"
proof -
  let ?ix = "\<lparr>ix_d = 2, ix_xb = [[1, 1], [2, 0]]\<rparr>"
  let ?s = "demo_store\<lparr>scent_descriptions := [], scent_vectors := Some []\<rparr>"
  have build: "add_scents toy_encoder demo_store [] = (Inl IndexError, ?s)"
    by (rule add_scents_empty)
  have ix: "index ?s = Some ?ix" by (simp add: demo_store_eq)
  have "search toy_encoder ?s ''a'' 1 =
      (format_results (scent_descriptions ?s)
         (snd (knn_L2sqr ?ix (nat 1) (toy_encoder ''a'')))
         (fst (knn_L2sqr ?ix (nat 1) (toy_encoder ''a''))) [], ?s)"
    using ix by (rule search_index_Some) (simp_all add: length_toy_encoder)
  then have after: "fst (search toy_encoder ?s ''a'' 1) = Inl IndexError"
    by (simp add: knn_L2sqr_eq ranked_demo_a ntotal_def py_getitem_def)
  have changed: "?s \<noteq> demo_store" by (simp add: demo_store_eq)
  have before: "scent_descriptions demo_store = [''a'', ''bb'']" by (simp add: demo_store_eq)
  show ?thesis
    unfolding build using after changed before search_demo_a_1 by simp
qed

text \<open>
  C4, at an input where the code departs from it. The query is the second description
  itself and \<open>k = 3\<close>. The stored vector of that description is at distance 0 from the
  query and it is returned first, but the padding label \<open>-1\<close> makes the loop return
  the same description a second time, after a description at distance 2 and with the
  padding distance in place of its distance: the returned sequence is not the stored
  items in ascending order of their distance to the query.
\<close>

theorem search_order_k_above_corpus_size:
  "fst (search toy_encoder demo_store ''bb'' 3) = Inr [(''bb'', 0), (''a'', 2), (''bb'', FLT_MAX)] \<and>
   fvec_L2sqr (toy_encoder ''bb'') (toy_encoder ''bb'') = 0 \<and>
   fvec_L2sqr (toy_encoder ''bb'') (toy_encoder ''a'') = 2 \<and>
   FLT_MAX \<noteq> 0"
proof -
  have "fst (search toy_encoder demo_store ''bb'' 3) =
      Inr [(''bb'', 0), (''a'', 2), (''bb'', FLT_MAX)]"
    by (subst search_built [where ix = "\<lparr>ix_d = 2, ix_xb = [[1, 1], [2, 0]]\<rparr>"])
       (simp_all add: demo_store_eq ranked_demo_bb ntotal_def length_toy_encoder)
  then show ?thesis
    by (simp add: fvec_L2sqr_def toy_encoder_def FLT_MAX_def)
qed

text \<open>
  C5. A build replaces the store. After \<^verbatim>\<open>add_scents(D1)\<close> and then \<^verbatim>\<open>add_scents(D2)\<close>
  with no description in common, the stored descriptions are exactly \<open>D2\<close>; every
  result of every later search is a description of \<open>D2\<close> and none is a description of
  \<open>D1\<close>; a second build that succeeds leaves the object that the same build leaves on
  a fresh object, so nothing of the first build remains; and with an encoder of fixed
  dimension, a non-empty \<open>D2\<close> and \<open>k \<ge> 1\<close> the search does return results.
\<close>

theorem add_scents_replaces:
  assumes "set D1 \<inter> set D2 = {}"
  shows "scent_descriptions (snd (add_scents model (snd (add_scents model self D1)) D2)) = D2 \<and>
    (\<forall>rs. fst (search model (snd (add_scents model (snd (add_scents model self D1)) D2)) query k)
            = Inr rs
          \<longrightarrow> (\<forall>r\<in>set rs. fst r \<in> set D2 \<and> fst r \<notin> set D1)) \<and>
    (fst (add_scents model (snd (add_scents model self D1)) D2) = Inr ()
       \<longrightarrow> snd (add_scents model (snd (add_scents model self D1)) D2)
           = snd (add_scents model ScentSearch_init D2)) \<and>
    (fixed_dim model n \<and> D2 \<noteq> [] \<and> 0 < k
       \<longrightarrow> (\<exists>rs. fst (search model (snd (add_scents model (snd (add_scents model self D1)) D2))
                      query k) = Inr rs \<and> length rs = nat k))"
proof -
  let ?s1 = "snd (add_scents model self D1)"
  let ?s2 = "snd (add_scents model ?s1 D2)"
  have descs: "scent_descriptions ?s2 = D2" by (rule add_scents_descriptions)
  have from_D2: "\<forall>r\<in>set rs. fst r \<in> set D2 \<and> fst r \<notin> set D1"
    if "fst (search model ?s2 query k) = Inr rs" for rs
    using search_descriptions [OF that] assms by (auto simp: descs)
  have indep: "?s2 = snd (add_scents model ScentSearch_init D2)"
    if "fst (add_scents model ?s1 D2) = Inr ()"
    using add_scents_success_indep [OF that, of ScentSearch_init] by simp
  have returns: "\<exists>rs. fst (search model ?s2 query k) = Inr rs \<and> length rs = nat k"
    if h: "fixed_dim model n \<and> D2 \<noteq> [] \<and> 0 < k"
  proof -
    let ?ix = "\<lparr>ix_d = n, ix_xb = map model D2\<rparr>"
    have len: "length (model query) = n" using h by (simp add: fixed_dim_def)
    have s2: "?s2 = \<lparr>scent_descriptions = D2, scent_vectors = Some (map model D2),
        index = Some ?ix\<rparr>"
      using h add_scents_fixed_dim [of model n D2] by simp
    show ?thesis unfolding s2
      using search_built [of "\<lparr>scent_descriptions = D2, scent_vectors = Some (map model D2),
        index = Some ?ix\<rparr>" ?ix model query k] h len
      by (simp add: ntotal_def length_ranked)
  qed
  from descs from_D2 indep returns show ?thesis by blast
qed

theorem add_scents_replaces_witness:
  "set [''a'', ''bb''] \<inter> set [''ccc''] = {} \<and>
   fixed_dim toy_encoder 2 \<and>
   fst (add_scents toy_encoder demo_store [''ccc'']) = Inr () \<and>
   fst (search toy_encoder (snd (add_scents toy_encoder demo_store [''ccc''])) ''a'' 2)
     = Inr [(''ccc'', 5), (''ccc'', FLT_MAX)] \<and>
   ''ccc'' \<in> set [''ccc''] \<and> ''ccc'' \<notin> set [''a'', ''bb'']"
proof -
  have disj: "set [''a'', ''bb''] \<inter> set [''ccc''] = {}" by simp
  have ok: "fst (add_scents toy_encoder demo_store [''ccc'']) = Inr ()"
    by (simp add: add_scents_fixed_dim [OF fixed_dim_toy_encoder])
  have res: "fst (search toy_encoder (snd (add_scents toy_encoder demo_store [''ccc''])) ''a'' 2)
      = Inr [(''ccc'', 5), (''ccc'', FLT_MAX)]"
    by (rule search_demo_replaced)
  have "\<forall>r\<in>set [(''ccc'', 5), (''ccc'', FLT_MAX)].
      fst r \<in> set [''ccc''] \<and> fst r \<notin> set [''a'', ''bb'']"
    using add_scents_replaces [OF disj, of toy_encoder ScentSearch_init "''a''" 2 2] res
    unfolding demo_store_def by blast
  then have "''ccc'' \<in> set [''ccc''] \<and> ''ccc'' \<notin> set [''a'', ''bb'']"
    by simp
  with disj ok res fixed_dim_toy_encoder show ?thesis by blast
qed

text \<open>
  C6. Exact match. After a successful \<^verbatim>\<open>add_scents(D)\<close>, for a query text that is one
  of the descriptions of \<open>D\<close> and \<open>k \<ge> 1\<close>, the search returns results; the
  distance of the query to that item's vector is 0; the first result has distance 0
  and is a description of \<open>D\<close> whose vector is at distance 0 from the query; and no
  returned distance is below 0, so 0 is the minimum among the returned distances.
\<close>

theorem search_exact_match:
  assumes ok: "fst (add_scents model self D) = Inr ()" and mem: "query \<in> set D" and k: "0 < k"
  shows "\<exists>rs. fst (search model (snd (add_scents model self D)) query k) = Inr rs \<and>
     rs \<noteq> [] \<and>
     fvec_L2sqr (model query) (model query) = 0 \<and>
     snd (hd rs) = 0 \<and>
     fvec_L2sqr (model query) (model (fst (hd rs))) = 0 \<and>
     fst (hd rs) \<in> set D \<and>
     (\<forall>r\<in>set rs. 0 \<le> snd r)"
proof -
  let ?ix = "\<lparr>ix_d = length (model (hd D)), ix_xb = map model D\<rparr>"
  let ?s = "\<lparr>scent_descriptions = D, scent_vectors = Some (map model D), index = Some ?ix\<rparr>"
  let ?r = "ranked ?ix (model query)"
  let ?rs = "map (\<lambda>c. (D ! snd c, fst c)) (take (nat k) ?r)
               @ replicate (nat k - ntotal ?ix) (last D, FLT_MAX)"
  from mem have ne: "D \<noteq> []" by auto
  have s: "snd (add_scents model self D) = ?s"
    using add_scents_success [OF ok] by simp
  have len: "length (model query) = length (model (hd D))"
    using ok mem by (rule add_scents_success_dim)
  have res: "fst (search model ?s query k) = Inr ?rs"
    using search_built [of ?s ?ix model query k] k ne len by (simp add: ntotal_def)
  from mem obtain j where j: "j < length D" "D ! j = query"
    by (auto simp: in_set_conv_nth)
  have "(fvec_L2sqr (model query) (ix_xb ?ix ! j), j) \<in> set ?r"
    using j by (intro ranked_member) (simp add: ntotal_def)
  then have zero: "(0, j) \<in> set ?r" using j by (simp add: fvec_L2sqr_self)
  then have rne: "?r \<noteq> []" by auto
  have hd_in: "hd ?r \<in> set ?r" using rne by simp
  have "fst (hd ?r) \<le> 0" using ranked_hd_least [OF zero] by simp
  moreover have "0 \<le> fst (hd ?r)" using hd_in by (rule ranked_nonneg)
  ultimately have hd0: "fst (hd ?r) = 0" by simp
  have tk: "take (nat k) ?r = hd ?r # take (nat k - 1) (tl ?r)"
    using rne k by (cases ?r; cases "nat k") auto
  have hd_rs: "hd ?rs = (D ! snd (hd ?r), fst (hd ?r))" by (simp add: tk)
  have lab: "snd (hd ?r) < length D" using ranked_label [OF hd_in] by (simp add: ntotal_def)
  have "fvec_L2sqr (model query) (model (D ! snd (hd ?r))) = fst (hd ?r)"
    using ranked_distance [OF hd_in] lab by simp
  then have near: "fvec_L2sqr (model query) (model (fst (hd ?rs))) = 0"
    using hd0 hd_rs by simp
  have nonneg: "\<forall>r\<in>set ?rs. 0 \<le> snd r"
    using ranked_nonneg [of _ ?ix "model query"] FLT_MAX_nonneg
    by (auto dest!: in_set_takeD)
  have "?rs \<noteq> []" by (simp add: tk)
  moreover have "snd (hd ?rs) = 0" using hd0 hd_rs by simp
  moreover have "fst (hd ?rs) \<in> set D" using lab hd_rs by simp
  ultimately show ?thesis
    using res near nonneg unfolding s
    by (intro exI [of _ ?rs]) (simp add: fvec_L2sqr_self)
qed

theorem search_exact_match_witness:
  "fst (add_scents toy_encoder ScentSearch_init [''a'', ''bb'']) = Inr () \<and>
   ''a'' \<in> set [''a'', ''bb''] \<and> (0::int) < 1 \<and>
   fst (search toy_encoder demo_store ''a'' 1) = Inr [(''a'', 0)] \<and>
   fvec_L2sqr (toy_encoder ''a'') (toy_encoder ''a'') = 0"
proof -
  have ok: "fst (add_scents toy_encoder ScentSearch_init [''a'', ''bb'']) = Inr ()"
    by (simp add: add_scents_fixed_dim [OF fixed_dim_toy_encoder])
  have mem: "''a'' \<in> set [''a'', ''bb'']" by simp
  have k: "(0::int) < 1" by simp
  from search_exact_match [OF ok mem k]
  have "fvec_L2sqr (toy_encoder ''a'') (toy_encoder ''a'') = 0" by blast
  with ok mem show ?thesis by (simp add: search_demo_a_1)
qed

text \<open>
  C7. Determinism: with the encoder a function of the text, a \<^verbatim>\<open>search\<close> repeated on the
  object that the first call leaves behind, with the same text and \<open>k\<close>, gives the
  same outcome, results in the same order or the same error.
\<close>

theorem search_deterministic:
  "fst (search model (snd (search model self query k)) query k) = fst (search model self query k)"
  by (simp add: search_snd)

text \<open>
  C8, as the code has it. On an object with an index, \<^verbatim>\<open>search\<close> with \<open>k < 1\<close> raises
  the \<^verbatim>\<open>AssertionError\<close> of the index's own argument check; the code does not catch
  it, so it reaches the caller, and the object is unchanged.
\<close>

theorem search_k_below_one:
  "index self = Some ix \<Longrightarrow> k < 1 \<Longrightarrow> search model self query k = (Inl AssertionError, self)"
  by (simp add: search_def index_search_def Let_def)

theorem search_k_below_one_witness:
  "index demo_store = Some \<lparr>ix_d = 2, ix_xb = [[1, 1], [2, 0]]\<rparr> \<and> (0::int) < 1 \<and>
   search toy_encoder demo_store ''a'' 0 = (Inl AssertionError, demo_store)"
  using search_k_below_one [of demo_store "\<lparr>ix_d = 2, ix_xb = [[1, 1], [2, 0]]\<rparr>" 0 toy_encoder "''a''"]
  by (simp add: demo_store_eq)

text \<open>
  C8 as stated fails: on the built object the error of \<^verbatim>\<open>search\<close> with \<open>k = 0\<close> is not
  \<^verbatim>\<open>InvalidArgumentError\<close>.
\<close>

theorem search_k_below_one_counterexample:
  "fst (search toy_encoder demo_store ''a'' 0) \<noteq> Inl InvalidArgumentError"
  by (simp add: search_bad_k [where ix = "\<lparr>ix_d = 2, ix_xb = [[1, 1], [2, 0]]\<rparr>"] demo_store_eq)

text \<open>
  C9. \<^verbatim>\<open>search\<close> is a pure read: for every object state and every query text and
  \<open>k\<close>, the object after the call (descriptions, vectors and index) is the object
  before it, whether the call returns results or raises.
\<close>

theorem search_pure_read: "snd (search model self query k) = self"
  by (rule search_snd)

text \<open>
  C10. After a successful \<^verbatim>\<open>add_scents(D)\<close> the list \<open>D\<close> is not empty, the object
  holds an index, the stored descriptions are \<open>D\<close> in input order, and the number of
  stored descriptions, the number of vectors in the index and the length of \<open>D\<close> are
  equal. For every \<open>k\<close> from 1 to the length of \<open>D\<close> and every query whose vector has
  the dimension of the index, each label that the index returns is a 0-based
  position in the description list, and the search returns \<open>k\<close> results, each a
  description of \<open>D\<close>.
\<close>

theorem add_scents_invariant:
  assumes ok: "fst (add_scents model self D) = Inr ()"
  shows "\<exists>ix. D \<noteq> [] \<and>
     index (snd (add_scents model self D)) = Some ix \<and>
     scent_descriptions (snd (add_scents model self D)) = D \<and>
     length (scent_descriptions (snd (add_scents model self D))) = ntotal ix \<and>
     ntotal ix = length D \<and>
     (\<forall>k query. 1 \<le> k \<and> k \<le> int (length D) \<and> length (model query) = ix_d ix \<longrightarrow>
        (\<exists>ds labels rs.
           index_search ix (encode model [query]) k = Inr ([ds], [labels]) \<and>
           length labels = nat k \<and>
           (\<forall>i\<in>set labels. 0 \<le> i \<and> i < int (length D)) \<and>
           fst (search model (snd (add_scents model self D)) query k) = Inr rs \<and>
           length rs = nat k \<and>
           (\<forall>r\<in>set rs. fst r \<in> set D)))"
proof -
  let ?ix = "\<lparr>ix_d = length (model (hd D)), ix_xb = map model D\<rparr>"
  let ?s = "snd (add_scents model self D)"
  from add_scents_success [OF ok] have ne: "D \<noteq> []"
    and s: "?s = \<lparr>scent_descriptions = D, scent_vectors = Some (map model D),
         index = Some ?ix\<rparr>"
    by simp_all
  have q: "\<exists>ds labels rs.
           index_search ?ix (encode model [query]) k = Inr ([ds], [labels]) \<and>
           length labels = nat k \<and>
           (\<forall>i\<in>set labels. 0 \<le> i \<and> i < int (length D)) \<and>
           fst (search model ?s query k) = Inr rs \<and>
           length rs = nat k \<and>
           (\<forall>r\<in>set rs. fst r \<in> set D)"
    if h: "1 \<le> k \<and> k \<le> int (length D) \<and> length (model query) = ix_d ?ix" for k query
  proof -
    let ?top = "take (nat k) (ranked ?ix (model query))"
    have kn: "nat k \<le> length D" using h by linarith
    have pad: "nat k - ntotal ?ix = 0" using kn by (simp add: ntotal_def)
    have idx: "index_search ?ix (encode model [query]) k =
        Inr ([map fst ?top], [map (\<lambda>c. int (snd c)) ?top])"
      using h pad by (simp add: index_search_def encode_def knn_L2sqr_eq)
    have lab: "\<forall>i\<in>set (map (\<lambda>c. int (snd c)) ?top). 0 \<le> i \<and> i < int (length D)"
      using ranked_label [of _ ?ix "model query"]
      by (auto simp: ntotal_def dest!: in_set_takeD)
    have len: "length (map (\<lambda>c. int (snd c)) ?top) = nat k"
      using kn by (simp add: length_ranked ntotal_def)
    have res: "fst (search model ?s query k) = Inr (map (\<lambda>c. (D ! snd c, fst c)) ?top)"
      unfolding s
      using search_built [of "\<lparr>scent_descriptions = D, scent_vectors = Some (map model D),
         index = Some ?ix\<rparr>" ?ix model query k] h ne pad
      by (simp add: ntotal_def)
    have mem: "\<forall>r\<in>set (map (\<lambda>c. (D ! snd c, fst c)) ?top). fst r \<in> set D"
      using ranked_label [of _ ?ix "model query"]
      by (auto simp: ntotal_def dest!: in_set_takeD)
    have "length (map (\<lambda>c. (D ! snd c, fst c)) ?top) = nat k"
      using kn by (simp add: length_ranked ntotal_def)
    with idx lab len res mem show ?thesis by blast
  qed
  show ?thesis
    using ne q by (intro exI [of _ ?ix]) (simp add: s ntotal_def)
qed

theorem add_scents_invariant_witness:
  "fst (add_scents toy_encoder ScentSearch_init [''a'', ''bb'']) = Inr () \<and>
   index demo_store = Some \<lparr>ix_d = 2, ix_xb = [[1, 1], [2, 0]]\<rparr> \<and>
   scent_descriptions demo_store = [''a'', ''bb''] \<and>
   ntotal \<lparr>ix_d = 2, ix_xb = [[1, 1], [2, 0]]\<rparr> = 2 \<and>
   (1::int) \<le> 2 \<and> (2::int) \<le> int (length [''a'', ''bb'']) \<and>
   index_search \<lparr>ix_d = 2, ix_xb = [[1, 1], [2, 0]]\<rparr> (encode toy_encoder [''a'']) 2
     = Inr ([[0, 2]], [[0, 1]]) \<and>
   fst (search toy_encoder demo_store ''a'' 2) = Inr [(''a'', 0), (''bb'', 2)]"
proof -
  have ok: "fst (add_scents toy_encoder ScentSearch_init [''a'', ''bb'']) = Inr ()"
    by (simp add: add_scents_fixed_dim [OF fixed_dim_toy_encoder])
  from add_scents_invariant [OF ok] obtain ix where
    ix: "index demo_store = Some ix" and d: "scent_descriptions demo_store = [''a'', ''bb'']"
    and n: "ntotal ix = length [''a'', ''bb'']"
    unfolding demo_store_def by blast
  from ix have "ix = \<lparr>ix_d = 2, ix_xb = [[1, 1], [2, 0]]\<rparr>" by (simp add: demo_store_eq)
  with ix d n ok show ?thesis
    by (simp add: search_demo_a_2 index_search_demo_a_2)
qed

end
